theory Spec2Isabelle
  imports Complex_Main "HOL-Library.AList"
begin

section \<open>The temporal transform manager of pytransform3d\<close>

text \<open>
  A shallow embedding of \<^verbatim>\<open>pytransform3d/transform_manager/_temporal_transform_manager.py\<close>:
  the classes \<^verbatim>\<open>TimeTransform\<close>, \<^verbatim>\<open>StaticTransform\<close> and \<^verbatim>\<open>TemporalTransformManager\<close>.

  Python objects are mutable and shared, so the instances of \<^verbatim>\<open>TimeTransform\<close> live in
  an object store and the manager's dictionary holds references to them. Every method
  takes the state and returns its result together with the state it leaves behind; an
  exception is a result \<open>Inl e\<close>, returned with the state at the point of the raise.
  A leading underscore of a Python name is written \<open>p_\<close>.
\<close>

subsection \<open>Values, errors and the object store\<close>

text \<open>
  A time is a Python number. The module stores, passes on and returns times and never
  computes with them, so a real number stands for one. A matrix is a value of the type
  parameter \<open>'m\<close>, a frame one of \<open>'f\<close>.
\<close>

type_synonym time = real

type_synonym ref = nat

datatype error = KeyError | AttributeError | NoPathError | InvalidTransformError

text \<open>
  An instance of a subclass of \<^verbatim>\<open>TimeTransform\<close>. \<^verbatim>\<open>StaticTransform\<close> has the one field
  \<^verbatim>\<open>_A2B\<close>. The two abstract methods are all that is known of a subclass written by a
  user: it is given by what its \<^verbatim>\<open>as_matrix\<close> computes from the time (a matrix, or an
  exception) and by whether its \<^verbatim>\<open>check_transforms\<close> raises; by its docstring a
  successful \<^verbatim>\<open>check_transforms\<close> returns the original object. Methods of a user that
  write to the state are outside the model.
\<close>

datatype 'm time_transform =
    StaticTransform (p_A2B: 'm)
  | UserTransform (user_as_matrix: "time \<Rightarrow> error + 'm") (user_check: "error option")

text \<open>
  A Python value handed to the manager: a reference to an instance of \<^verbatim>\<open>TimeTransform\<close>,
  or anything else (a raw matrix). \<^verbatim>\<open>isinstance(v, TimeTransform)\<close> holds of the former
  only. Matrices are values: nothing in the module writes into an array.
\<close>

datatype 'm pyval = Raw 'm | Obj ref

fun isinstance_TimeTransform :: "'m pyval \<Rightarrow> bool" where
  "isinstance_TimeTransform (Obj a) = True"
| "isinstance_TimeTransform (Raw M) = False"

type_synonym 'f key = "'f \<times> 'f"

text \<open>
  The state: the object store (\<open>objs\<close>, with \<open>next_id\<close> the address of the next object
  created), the trace of the arguments with which the external \<^verbatim>\<open>check_transform\<close> has
  been called, and the fields of the one \<^verbatim>\<open>TemporalTransformManager\<close>. The dictionary
  \<^verbatim>\<open>_transforms\<close> is an association list in insertion order. The two flags are the
  arguments that \<^verbatim>\<open>__init__\<close> hands to the base class.
\<close>

record ('f, 'm) world =
  objs :: "ref \<Rightarrow> 'm time_transform"
  next_id :: ref
  check_calls :: "'m list"
  p_transforms :: "('f key \<times> 'm pyval) list"
  p_current_time :: time
  strict_check :: bool
  check :: bool

text \<open>
  The functions imported from \<^verbatim>\<open>..transformations\<close> are not part of the module; they are
  parameters. \<^verbatim>\<open>check_transform\<close> returns the checked (possibly normalised) matrix or
  raises; \<^verbatim>\<open>concat\<close> is written \<open>concat_tf\<close>.
\<close>

record 'm transformations =
  check_transform :: "'m \<Rightarrow> error + 'm"
  invert_transform :: "'m \<Rightarrow> 'm"
  concat_tf :: "'m \<Rightarrow> 'm \<Rightarrow> 'm"
  identity :: 'm

subsection \<open>TimeTransform and StaticTransform\<close>

text \<open>\<^verbatim>\<open>StaticTransform(A2B)\<close>: a new object whose field \<^verbatim>\<open>_A2B\<close> is the argument.\<close>

definition StaticTransform_init :: "'m \<Rightarrow> ('f, 'm) world \<Rightarrow> ref \<times> ('f, 'm) world" where
  "StaticTransform_init A2B w =
     (next_id w,
      w\<lparr>objs := (objs w)(next_id w := StaticTransform A2B), next_id := Suc (next_id w)\<rparr>)"

text \<open>\<^verbatim>\<open>obj.as_matrix(time)\<close>, dispatched on the class of the object.\<close>

definition as_matrix :: "ref \<Rightarrow> time \<Rightarrow> ('f, 'm) world \<Rightarrow> (error + 'm) \<times> ('f, 'm) world" where
  "as_matrix a t w =
     (case objs w a of
        StaticTransform A2B \<Rightarrow> (Inr A2B, w)
      | UserTransform f c \<Rightarrow> (f t, w))"

text \<open>
  \<^verbatim>\<open>obj.check_transforms()\<close>. For a \<^verbatim>\<open>StaticTransform\<close>:
  \<^verbatim>\<open>self._A2B = check_transform(self._A2B); return self\<close>. The call of the external
  function is recorded in \<open>check_calls\<close>; when it raises, the assignment does not happen.
\<close>

definition check_transforms ::
  "'m transformations \<Rightarrow> ref \<Rightarrow> ('f, 'm) world \<Rightarrow> (error + ref) \<times> ('f, 'm) world" where
  "check_transforms T a w =
     (case objs w a of
        StaticTransform A2B \<Rightarrow>
          (let w1 = w\<lparr>check_calls := check_calls w @ [A2B]\<rparr> in
           case check_transform T A2B of
             Inl e \<Rightarrow> (Inl e, w1)
           | Inr M \<Rightarrow> (Inr a, w1\<lparr>objs := (objs w1)(a := StaticTransform M)\<rparr>))
      | UserTransform f c \<Rightarrow>
          (case c of Some e \<Rightarrow> (Inl e, w) | None \<Rightarrow> (Inr a, w)))"

subsection \<open>TemporalTransformManager\<close>

text \<open>
  Modelled from the spec: the constructor of the base class \<^verbatim>\<open>TransformGraphBase\<close>,
  whose module \<^verbatim>\<open>_transform_graph_base.py\<close> is missing. By section 6 of the specification
  \<^verbatim>\<open>strict_check\<close> and \<^verbatim>\<open>check\<close> are the configuration fixed at construction.
\<close>

definition TransformGraphBase_init ::
  "bool \<Rightarrow> bool \<Rightarrow> ('f, 'm) world \<Rightarrow> ('f, 'm) world" where
  "TransformGraphBase_init sc c w = w\<lparr>strict_check := sc, check := c\<rparr>"

text \<open>
  \<^verbatim>\<open>__init__\<close>: \<^verbatim>\<open>self._transforms = {}\<close>, \<^verbatim>\<open>self._current_time = 0.0\<close>, then the
  constructor of the base class. Objects that exist already are kept.
\<close>

definition TemporalTransformManager_init ::
  "bool \<Rightarrow> bool \<Rightarrow> ('f, 'm) world \<Rightarrow> ('f, 'm) world" where
  "TemporalTransformManager_init sc c w =
     TransformGraphBase_init sc c (w\<lparr>p_transforms := [], p_current_time := 0\<rparr>)"

text \<open>The property \<^verbatim>\<open>current_time\<close> and the method \<^verbatim>\<open>set_time\<close>.\<close>

definition current_time :: "('f, 'm) world \<Rightarrow> time" where
  "current_time w = p_current_time w"

definition set_time :: "time \<Rightarrow> ('f, 'm) world \<Rightarrow> ('f, 'm) world" where
  "set_time t w = w\<lparr>p_current_time := t\<rparr>"

text \<open>
  The dictionary comprehension of the property \<^verbatim>\<open>transforms\<close>: the items are visited in
  insertion order, \<^verbatim>\<open>transform.as_matrix(self.current_time)\<close> is evaluated for each, and
  the first exception ends the comprehension. A stored value that is no
  \<^verbatim>\<open>TimeTransform\<close> has no method \<^verbatim>\<open>as_matrix\<close>.
\<close>

fun transforms_items ::
  "('f key \<times> 'm pyval) list \<Rightarrow> ('f, 'm) world \<Rightarrow>
     (error + ('f key \<times> 'm) list) \<times> ('f, 'm) world" where
  "transforms_items [] w = (Inr [], w)"
| "transforms_items ((tf_direction, Raw M) # items) w = (Inl AttributeError, w)"
| "transforms_items ((tf_direction, Obj a) # items) w =
     (case as_matrix a (current_time w) w of
        (Inl e, w1) \<Rightarrow> (Inl e, w1)
      | (Inr M, w1) \<Rightarrow>
          (case transforms_items items w1 of
             (Inl e, w2) \<Rightarrow> (Inl e, w2)
           | (Inr d, w2) \<Rightarrow> (Inr ((tf_direction, M) # d), w2)))"

definition transforms ::
  "('f, 'm) world \<Rightarrow> (error + ('f key \<times> 'm) list) \<times> ('f, 'm) world" where
  "transforms w = transforms_items (p_transforms w) w"

text \<open>
  \<^verbatim>\<open>get_transform_in_time\<close>. \<^verbatim>\<open>get_transform\<close> is a method of the base class
  \<^verbatim>\<open>TransformGraphBase\<close>, which is not part of the module: it is the parameter \<open>gt\<close>.
  There is no \<^verbatim>\<open>try\<close>: when \<^verbatim>\<open>get_transform\<close> raises, the two last statements are
  not executed.
\<close>

definition get_transform_in_time ::
  "('f \<Rightarrow> 'f \<Rightarrow> ('f, 'm) world \<Rightarrow> (error + 'm) \<times> ('f, 'm) world) \<Rightarrow>
   'f \<Rightarrow> 'f \<Rightarrow> time \<Rightarrow> ('f, 'm) world \<Rightarrow> (error + 'm) \<times> ('f, 'm) world" where
  "get_transform_in_time gt from_frame to_frame t w =
     (let previous_time = p_current_time w;
          w1 = set_time t w
      in case gt from_frame to_frame w1 of
           (Inl e, w2) \<Rightarrow> (Inl e, w2)
         | (Inr A2B, w2) \<Rightarrow> (Inr A2B, set_time previous_time w2))"

text \<open>\<^verbatim>\<open>_transform_available\<close>: \<^verbatim>\<open>return key in self._transforms\<close>.\<close>

definition p_transform_available :: "'f key \<Rightarrow> ('f, 'm) world \<Rightarrow> bool" where
  "p_transform_available k w = (k \<in> set (map fst (p_transforms w)))"

text \<open>
  \<^verbatim>\<open>_set_transform\<close>: a value that is no \<^verbatim>\<open>TimeTransform\<close> is replaced by a new
  \<^verbatim>\<open>StaticTransform\<close> of it; then \<^verbatim>\<open>self._transforms[key] = A2B\<close>, which replaces the
  value of a key that is present and appends a key that is not.
\<close>

definition p_set_transform :: "'f key \<Rightarrow> 'm pyval \<Rightarrow> ('f, 'm) world \<Rightarrow> ('f, 'm) world" where
  "p_set_transform k A2B w =
     (case (case A2B of
              Raw M \<Rightarrow> (case StaticTransform_init M w of (a, w1) \<Rightarrow> (Obj a, w1))
            | Obj a \<Rightarrow> (A2B, w)) of
        (A2B', w') \<Rightarrow> w'\<lparr>p_transforms := AList.update k A2B' (p_transforms w')\<rparr>)"

text \<open>
  \<^verbatim>\<open>_get_transform\<close>: \<^verbatim>\<open>return self.transforms[key]\<close>. The property is evaluated, and
  the dictionary it returns is indexed: \<open>KeyError\<close> for a key that is not in it.
\<close>

definition p_get_transform ::
  "'f key \<Rightarrow> ('f, 'm) world \<Rightarrow> (error + 'm) \<times> ('f, 'm) world" where
  "p_get_transform k w =
     (case transforms w of
        (Inl e, w1) \<Rightarrow> (Inl e, w1)
      | (Inr d, w1) \<Rightarrow>
          (case map_of d k of
             None \<Rightarrow> (Inl KeyError, w1)
           | Some M \<Rightarrow> (Inr M, w1)))"

text \<open>\<^verbatim>\<open>_del_transform\<close>: \<^verbatim>\<open>del self._transforms[key]\<close>, \<open>KeyError\<close> for a missing key.\<close>

definition p_del_transform ::
  "'f key \<Rightarrow> ('f, 'm) world \<Rightarrow> (error + unit) \<times> ('f, 'm) world" where
  "p_del_transform k w =
     (if k \<in> set (map fst (p_transforms w))
      then (Inr (), w\<lparr>p_transforms := AList.delete k (p_transforms w)\<rparr>)
      else (Inl KeyError, w))"

text \<open>
  \<^verbatim>\<open>_check_transform\<close>: \<^verbatim>\<open>return A2B.check_transforms()\<close>. A value that is no
  \<^verbatim>\<open>TimeTransform\<close> has no such method.
\<close>

definition p_check_transform ::
  "'m transformations \<Rightarrow> 'm pyval \<Rightarrow> ('f, 'm) world \<Rightarrow> (error + ref) \<times> ('f, 'm) world" where
  "p_check_transform T A2B w =
     (case A2B of
        Raw M \<Rightarrow> (Inl AttributeError, w)
      | Obj a \<Rightarrow> check_transforms T a w)"

subsection \<open>The query of the base class\<close>

text \<open>
  Modelled from the spec: \<^verbatim>\<open>get_transform\<close> of \<^verbatim>\<open>TransformGraphBase\<close>, whose module
  \<^verbatim>\<open>_transform_graph_base.py\<close> is missing. Section 4.2 of the specification: a query
  of a frame against itself is the identity; otherwise a path is found by breadth-first
  search over the undirected view of the registered edges, frames being visited in the
  order of their insertion and the first discovery winning; every edge of the path is
  evaluated at the ambient time through the hooks of the subclass, inverted when it is
  traversed against its registered direction; the matrices are composed in path order;
  \<open>NoPathError\<close> when there is no path.
\<close>

definition insert_frame :: "'f \<Rightarrow> 'f list \<Rightarrow> 'f list" where
  "insert_frame f fs = (if f \<in> set fs then fs else fs @ [f])"

definition frames :: "'f key list \<Rightarrow> 'f list" where
  "frames ks = fold (\<lambda>(a, b) fs. insert_frame b (insert_frame a fs)) ks []"

definition adjacent :: "'f key list \<Rightarrow> 'f \<Rightarrow> 'f \<Rightarrow> bool" where
  "adjacent ks f g = ((f, g) \<in> set ks \<or> (g, f) \<in> set ks)"

definition discovered :: "'f key list \<Rightarrow> 'f list \<Rightarrow> 'f \<Rightarrow> 'f list" where
  "discovered ks visited f = filter (\<lambda>g. adjacent ks f g \<and> g \<notin> set visited) (frames ks)"

text \<open>The queue holds the paths found so far, each one reversed (its last frame first).\<close>

function bfs :: "'f key list \<Rightarrow> 'f \<Rightarrow> 'f list \<Rightarrow> 'f list list \<Rightarrow> 'f list option" where
  "bfs ks goal visited [] = None"
| "bfs ks goal visited ([] # queue) = bfs ks goal visited queue"
| "bfs ks goal visited ((f # p) # queue) =
     (if f = goal then Some (rev (f # p))
      else bfs ks goal (visited @ discovered ks visited f)
             (queue @ map (\<lambda>g. g # f # p) (discovered ks visited f)))"
  by pat_completeness auto

termination bfs
proof (relation "measure (\<lambda>(ks, goal, visited, queue).
          2 * length (filter (\<lambda>g. g \<notin> set visited) (frames ks)) + length queue)")
  show "wf (measure (\<lambda>(ks, goal, visited, queue).
          2 * length (filter (\<lambda>g. g \<notin> set visited) (frames ks)) + length queue))"
    by simp
next
  fix ks :: "'f key list" and goal :: 'f and visited :: "'f list" and queue :: "'f list list"
  show "((ks, goal, visited, queue), (ks, goal, visited, [] # queue))
          \<in> measure (\<lambda>(ks, goal, visited, queue).
              2 * length (filter (\<lambda>g. g \<notin> set visited) (frames ks)) + length queue)"
    by simp
next
  fix ks :: "'f key list" and goal :: 'f and visited :: "'f list" and f :: 'f
    and p :: "'f list" and queue :: "'f list list"
  assume "f \<noteq> goal"
  have split: "length (filter (\<lambda>g. g \<notin> V \<and> \<not> P g) xs) + length (filter (\<lambda>g. P g \<and> g \<notin> V) xs)
      = length (filter (\<lambda>g. g \<notin> V) xs)" for V :: "'f set" and P xs
    by (induction xs) auto
  have "filter (\<lambda>g. g \<notin> set (visited @ discovered ks visited f)) (frames ks)
      = filter (\<lambda>g. g \<notin> set visited \<and> \<not> adjacent ks f g) (frames ks)"
    by (rule filter_cong) (auto simp: discovered_def)
  then have "length (filter (\<lambda>g. g \<notin> set (visited @ discovered ks visited f)) (frames ks))
       + length (discovered ks visited f)
     = length (filter (\<lambda>g. g \<notin> set visited) (frames ks))"
    unfolding discovered_def [of ks visited f]
    using split [of "set visited" "adjacent ks f" "frames ks"]
    by simp
  then show "((ks, goal, visited @ discovered ks visited f,
           queue @ map (\<lambda>g. g # f # p) (discovered ks visited f)),
          (ks, goal, visited, (f # p) # queue))
          \<in> measure (\<lambda>(ks, goal, visited, queue).
              2 * length (filter (\<lambda>g. g \<notin> set visited) (frames ks)) + length queue)"
    by simp
qed

definition edge_transform ::
  "'m transformations \<Rightarrow> 'f \<Rightarrow> 'f \<Rightarrow> ('f, 'm) world \<Rightarrow> (error + 'm) \<times> ('f, 'm) world" where
  "edge_transform T a b w =
     (if p_transform_available (a, b) w then p_get_transform (a, b) w
      else case p_get_transform (b, a) w of
             (Inl e, w1) \<Rightarrow> (Inl e, w1)
           | (Inr B2A, w1) \<Rightarrow> (Inr (invert_transform T B2A), w1))"

fun compose_path ::
  "'m transformations \<Rightarrow> 'm \<Rightarrow> 'f list \<Rightarrow> ('f, 'm) world \<Rightarrow> (error + 'm) \<times> ('f, 'm) world" where
  "compose_path T A2B (b # c # path) w =
     (case edge_transform T b c w of
        (Inl e, w1) \<Rightarrow> (Inl e, w1)
      | (Inr B2C, w1) \<Rightarrow> compose_path T (concat_tf T A2B B2C) (c # path) w1)"
| "compose_path T A2B path w = (Inr A2B, w)"

fun path_transform ::
  "'m transformations \<Rightarrow> 'f list \<Rightarrow> ('f, 'm) world \<Rightarrow> (error + 'm) \<times> ('f, 'm) world" where
  "path_transform T (a # b # path) w =
     (case edge_transform T a b w of
        (Inl e, w1) \<Rightarrow> (Inl e, w1)
      | (Inr A2B, w1) \<Rightarrow> compose_path T A2B (b # path) w1)"
| "path_transform T path w = (Inr (identity T), w)"

definition get_transform ::
  "'m transformations \<Rightarrow> 'f \<Rightarrow> 'f \<Rightarrow> ('f, 'm) world \<Rightarrow> (error + 'm) \<times> ('f, 'm) world" where
  "get_transform T from_frame to_frame w =
     (if from_frame = to_frame then (Inr (identity T), w)
      else case bfs (map fst (p_transforms w)) to_frame [from_frame] ([from_frame] # []) of
             None \<Rightarrow> (Inl NoPathError, w)
           | Some path \<Rightarrow> path_transform T path w)"

subsection \<open>Properties of a state, and calls of the methods\<close>

text \<open>
  Every stored value is a \<^verbatim>\<open>TimeTransform\<close> whose \<^verbatim>\<open>as_matrix\<close> returns a matrix at
  the current time.
\<close>

definition as_matrix_returns :: "('f, 'm) world \<Rightarrow> bool" where
  "as_matrix_returns w =
     list_all
       (\<lambda>(k, v). case v of
                   Raw M \<Rightarrow> False
                 | Obj a \<Rightarrow> (case fst (as_matrix a (current_time w) w) of
                              Inl e \<Rightarrow> False
                            | Inr M \<Rightarrow> True))
       (p_transforms w)"

text \<open>Every value of the dictionary \<^verbatim>\<open>_transforms\<close> is a \<^verbatim>\<open>TimeTransform\<close>.\<close>

definition stored_time_transforms :: "('f, 'm) world \<Rightarrow> bool" where
  "stored_time_transforms w =
     list_all (\<lambda>(k, v). isinstance_TimeTransform v) (p_transforms w)"

text \<open>
  A call of one of the methods of the manager, and the state in which the call leaves
  the manager, whether it returns or raises. \<^verbatim>\<open>get_transform_in_time\<close> runs the query of
  the base class.
\<close>

datatype ('f, 'm) call =
    Call_set_time time
  | Call_transforms
  | Call_get_transform_in_time 'f 'f time
  | Call_transform_available "'f key"
  | Call_set_transform "'f key" "'m pyval"
  | Call_get_transform "'f key"
  | Call_del_transform "'f key"
  | Call_check_transform "'m pyval"

fun after_call ::
  "'m transformations \<Rightarrow> ('f, 'm) call \<Rightarrow> ('f, 'm) world \<Rightarrow> ('f, 'm) world" where
  "after_call T (Call_set_time t) w = set_time t w"
| "after_call T Call_transforms w = snd (transforms w)"
| "after_call T (Call_get_transform_in_time from_frame to_frame t) w =
     snd (get_transform_in_time (get_transform T) from_frame to_frame t w)"
| "after_call T (Call_transform_available k) w = w"
| "after_call T (Call_set_transform k A2B) w = p_set_transform k A2B w"
| "after_call T (Call_get_transform k) w = snd (p_get_transform k w)"
| "after_call T (Call_del_transform k) w = snd (p_del_transform k w)"
| "after_call T (Call_check_transform A2B) w = snd (p_check_transform T A2B w)"

definition after_calls ::
  "'m transformations \<Rightarrow> ('f, 'm) call list \<Rightarrow> ('f, 'm) world \<Rightarrow> ('f, 'm) world" where
  "after_calls T cs w = fold (after_call T) cs w"

text \<open>The calls that run \<^verbatim>\<open>set_time\<close>.\<close>

fun sets_time :: "('f, 'm) call \<Rightarrow> bool" where
  "sets_time (Call_set_time t) = True"
| "sets_time (Call_get_transform_in_time from_frame to_frame t) = True"
| "sets_time c = False"

subsection \<open>An example\<close>

text \<open>
  Translations stand for the rigid transformations: a translation is the list of its
  three components, composition adds, inversion negates. \<open>ex_check\<close> accepts a list of
  three components and normalises a homogeneous vector of four.
\<close>

definition ex_check :: "int list \<Rightarrow> error + int list" where
  "ex_check M =
     (if length M = 3 then Inr M
      else if length M = 4 \<and> last M = 1 then Inr (butlast M)
      else Inl InvalidTransformError)"

definition ex_T :: "int list transformations" where
  "ex_T = \<lparr>check_transform = ex_check,
          invert_transform = map uminus,
          concat_tf = (\<lambda>A2B B2C. map (\<lambda>(x, y). x + y) (zip A2B B2C)),
          identity = [0, 0, 0]\<rparr>"

text \<open>
  Two transforms of a user: \<open>ex_moving\<close> moves along the first axis with the time;
  \<open>ex_bounded\<close> does the same and raises before time \<open>0\<close>.
\<close>

definition ex_moving :: "int list time_transform" where
  "ex_moving = UserTransform (\<lambda>t. Inr [\<lfloor>t\<rfloor>, 0, 0]) None"

definition ex_bounded :: "int list time_transform" where
  "ex_bounded =
     UserTransform (\<lambda>t. if t < 0 then Inl InvalidTransformError else Inr [\<lfloor>t\<rfloor>, 0, 0]) None"

definition ex_blank :: "(string, int list) world" where
  "ex_blank =
     \<lparr>objs = (\<lambda>a. StaticTransform [])(0 := ex_moving, 1 := ex_bounded),
      next_id = 2, check_calls = [], p_transforms = [], p_current_time = 7,
      strict_check = False, check = False\<rparr>"

text \<open>
  A manager with the static edges world--robot and robot--sensor and, apart from them,
  the moving edge arm--tool; \<open>ex_world_bounded\<close> has the edge tool--tip as well.
\<close>

definition ex_world :: "(string, int list) world" where
  "ex_world =
     p_set_transform (''arm'', ''tool'') (Obj 0)
       (p_set_transform (''robot'', ''sensor'') (Raw [1, 0, 0])
         (p_set_transform (''world'', ''robot'') (Raw [0, 0, 0])
           (TemporalTransformManager_init True True ex_blank)))"

definition ex_world_bounded :: "(string, int list) world" where
  "ex_world_bounded = p_set_transform (''tool'', ''tip'') (Obj 1) ex_world"

section \<open>Properties\<close>

subsection \<open>Reading leaves the state as it was\<close>

lemma as_matrix_world: "snd (as_matrix a t w) = w"
  by (simp add: as_matrix_def split: time_transform.splits)

lemma as_matrix_worldD: "as_matrix a t w = (r, w') \<Longrightarrow> w' = w"
  using as_matrix_world [of a t w] by simp

lemma transforms_items_world: "snd (transforms_items items w) = w"
proof (induction items w rule: transforms_items.induct)
  case (3 tf_direction a items w)
  obtain r where r: "as_matrix a (current_time w) w = (r, w)"
    using as_matrix_world [of a "current_time w" w] by (cases "as_matrix a (current_time w) w") simp
  show ?case
  proof (cases r)
    case (Inl e)
    with r show ?thesis by simp
  next
    case (Inr M)
    with r "3.IH" show ?thesis
      by (cases "transforms_items items w") (auto split: sum.splits)
  qed
qed simp_all

lemma transforms_world: "snd (transforms w) = w"
  by (simp add: transforms_def transforms_items_world)

lemma p_get_transform_world: "snd (p_get_transform k w) = w"
  using transforms_world [of w]
  by (cases "transforms w") (auto simp: p_get_transform_def split: sum.splits option.splits)

lemma edge_transform_world: "snd (edge_transform T a b w) = w"
  using p_get_transform_world [of "(a, b)" w] p_get_transform_world [of "(b, a)" w]
  by (cases "p_get_transform (b, a) w") (auto simp: edge_transform_def split: sum.splits)

lemma compose_path_world: "snd (compose_path T A2B path w) = w"
proof (induction T A2B path w rule: compose_path.induct)
  case (1 T A2B b c path w)
  obtain r where r: "edge_transform T b c w = (r, w)"
    using edge_transform_world [of T b c w] by (cases "edge_transform T b c w") simp
  show ?case
  proof (cases r)
    case (Inl e)
    with r show ?thesis by simp
  next
    case (Inr B2C)
    with r "1.IH" show ?thesis by simp
  qed
qed simp_all

lemma path_transform_world: "snd (path_transform T path w) = w"
proof (cases "(T, path, w)" rule: path_transform.cases)
  case (1 T' a b path' w')
  obtain r where r: "edge_transform T a b w = (r, w)"
    using edge_transform_world [of T a b w] by (cases "edge_transform T a b w") simp
  with 1 show ?thesis
    by (cases r) (simp_all add: compose_path_world)
qed simp_all

lemma get_transform_world: "snd (get_transform T from_frame to_frame w) = w"
  by (simp add: get_transform_def path_transform_world split: option.splits)

subsection \<open>The items of the dictionary\<close>

lemma transforms_items_returns:
  assumes "\<forall>x \<in> set items. \<exists>a M. snd x = Obj a \<and> as_matrix a (current_time w) w = (Inr M, w)"
  shows "\<exists>d. transforms_items items w = (Inr d, w) \<and> map fst d = map fst items \<and>
           (\<forall>k M. map_of d k = Some M \<longleftrightarrow>
              (\<exists>a. map_of items k = Some (Obj a) \<and> as_matrix a (current_time w) w = (Inr M, w)))"
  using assms
proof (induction items)
  case Nil
  show ?case by simp
next
  case (Cons item items)
  obtain k0 v0 where item: "item = (k0, v0)" by (cases item)
  from Cons.prems item obtain a0 M0
    where v0: "v0 = Obj a0" and ev: "as_matrix a0 (current_time w) w = (Inr M0, w)"
    by auto
  from Cons.prems have
    "\<forall>x \<in> set items. \<exists>a M. snd x = Obj a \<and> as_matrix a (current_time w) w = (Inr M, w)"
    by simp
  with Cons.IH obtain d
    where d: "transforms_items items w = (Inr d, w)" "map fst d = map fst items"
      and look: "\<And>k M. map_of d k = Some M \<longleftrightarrow>
              (\<exists>a. map_of items k = Some (Obj a) \<and> as_matrix a (current_time w) w = (Inr M, w))"
    by blast
  have "transforms_items (item # items) w = (Inr ((k0, M0) # d), w)"
    by (simp add: item v0 ev d)
  moreover have "map fst ((k0, M0) # d) = map fst (item # items)"
    by (simp add: item d)
  moreover have "map_of ((k0, M0) # d) k = Some M \<longleftrightarrow>
              (\<exists>a. map_of (item # items) k = Some (Obj a) \<and>
                   as_matrix a (current_time w) w = (Inr M, w))" for k M
    using look [of k M] ev by (auto simp: item v0)
  ultimately show ?case by blast
qed

lemma transforms_items_error:
  assumes "list_all (\<lambda>(k, v). isinstance_TimeTransform v) items"
    and "fst (transforms_items items w) = Inl e"
  shows "\<exists>k a. (k, Obj a) \<in> set items \<and> fst (as_matrix a (current_time w) w) = Inl e"
  using assms
proof (induction items)
  case Nil
  then show ?case by simp
next
  case (Cons item items)
  obtain k0 v0 where item: "item = (k0, v0)" by (cases item)
  with Cons.prems(1) obtain a0 where v0: "v0 = Obj a0"
    by (cases v0) auto
  obtain r where r: "as_matrix a0 (current_time w) w = (r, w)"
    using as_matrix_world [of a0 "current_time w" w]
    by (cases "as_matrix a0 (current_time w) w") simp
  show ?case
  proof (cases r)
    case (Inl e')
    with r Cons.prems(2) have "e' = e" by (simp add: item v0)
    moreover have "(k0, Obj a0) \<in> set (item # items)" by (simp add: item v0)
    ultimately show ?thesis using Inl r by (metis fst_conv)
  next
    case (Inr M)
    with r Cons.prems(2) have "fst (transforms_items items w) = Inl e"
      by (cases "transforms_items items w") (auto simp: item v0 split: sum.splits)
    with Cons.IH Cons.prems(1) obtain k a
      where "(k, Obj a) \<in> set items" "fst (as_matrix a (current_time w) w) = Inl e"
      by auto
    then have "(k, Obj a) \<in> set (item # items)" "fst (as_matrix a (current_time w) w) = Inl e"
      by simp_all
    then show ?thesis by blast
  qed
qed

lemma transforms_items_keys:
  "transforms_items items w = (Inr d, w') \<Longrightarrow> map fst d = map fst items"
proof (induction items w arbitrary: d w' rule: transforms_items.induct)
  case (3 tf_direction a items w)
  then show ?case
    by (auto split: prod.splits sum.splits)
qed simp_all

lemma transforms_returns:
  assumes "\<forall>x \<in> set (p_transforms w).
             \<exists>a M. snd x = Obj a \<and> as_matrix a (current_time w) w = (Inr M, w)"
  shows "\<exists>d. transforms w = (Inr d, w) \<and> map fst d = map fst (p_transforms w) \<and>
           (\<forall>k M. map_of d k = Some M \<longleftrightarrow>
              (\<exists>a. map_of (p_transforms w) k = Some (Obj a) \<and>
                   as_matrix a (current_time w) w = (Inr M, w)))"
  unfolding transforms_def using assms by (rule transforms_items_returns)

lemma as_matrix_returnsD:
  assumes "as_matrix_returns w"
  shows "\<forall>x \<in> set (p_transforms w).
           \<exists>a M. snd x = Obj a \<and> as_matrix a (current_time w) w = (Inr M, w)"
proof
  fix x
  assume x: "x \<in> set (p_transforms w)"
  obtain k v where kv: "x = (k, v)" by (cases x)
  with assms x obtain a where a: "v = Obj a"
    unfolding as_matrix_returns_def list_all_iff by (cases v) auto
  with assms x kv obtain M where "fst (as_matrix a (current_time w) w) = Inr M"
    unfolding as_matrix_returns_def list_all_iff
    by (cases "fst (as_matrix a (current_time w) w)") auto
  with as_matrix_world [of a "current_time w" w]
  have "as_matrix a (current_time w) w = (Inr M, w)"
    by (cases "as_matrix a (current_time w) w") simp
  with kv a show "\<exists>a M. snd x = Obj a \<and> as_matrix a (current_time w) w = (Inr M, w)"
    by simp
qed

lemma transforms_items_Inr:
  "transforms_items items w = (Inr d, w') \<Longrightarrow>
     list_all
       (\<lambda>(k, v). case v of
                   Raw M \<Rightarrow> False
                 | Obj a \<Rightarrow> (case fst (as_matrix a (current_time w) w) of
                              Inl e \<Rightarrow> False
                            | Inr M \<Rightarrow> True))
       items"
proof (induction items w arbitrary: d w' rule: transforms_items.induct)
  case (3 tf_direction a items w)
  obtain r where r: "as_matrix a (current_time w) w = (r, w)"
    using as_matrix_world [of a "current_time w" w]
    by (cases "as_matrix a (current_time w) w") simp
  with "3.prems" obtain M where M: "r = Inr M"
    by (cases r) auto
  with r "3.prems" obtain d' w'' where "transforms_items items w = (Inr d', w'')"
    by (cases "transforms_items items w") (auto split: sum.splits)
  with "3.IH" r M show ?case by simp
qed simp_all

lemma after_call_time:
  "\<not> sets_time c \<Longrightarrow> p_current_time (after_call T c w) = p_current_time w"
proof (cases c)
  case (Call_set_transform k A2B)
  then show ?thesis
    by (cases A2B) (simp_all add: p_set_transform_def StaticTransform_init_def)
next
  case (Call_check_transform A2B)
  then show ?thesis
    by (cases A2B)
      (simp_all add: p_check_transform_def check_transforms_def Let_def
        split: time_transform.splits sum.splits option.splits)
qed (simp_all add: transforms_world p_get_transform_world p_del_transform_def)

lemma after_calls_time:
  "list_all (\<lambda>c. \<not> sets_time c) cs \<Longrightarrow>
     p_current_time (after_calls T cs w) = p_current_time w"
  unfolding after_calls_def
  by (induction cs arbitrary: w) (simp_all add: after_call_time)

lemma list_all_update:
  "list_all P al \<Longrightarrow> P (k, v) \<Longrightarrow> list_all P (AList.update k v al)"
  by (induction al) auto

lemma list_all_delete: "list_all P al \<Longrightarrow> list_all P (AList.delete k al)"
  by (induction al) auto

lemma after_call_stored:
  assumes "stored_time_transforms w"
  shows "stored_time_transforms (after_call T c w)"
proof (cases c)
  case (Call_set_transform k A2B)
  with assms show ?thesis
    by (cases A2B)
      (simp_all add: stored_time_transforms_def p_set_transform_def StaticTransform_init_def
        list_all_update)
next
  case (Call_del_transform k)
  with assms show ?thesis
    by (simp add: stored_time_transforms_def p_del_transform_def list_all_delete)
next
  case (Call_check_transform A2B)
  with assms show ?thesis
    by (cases A2B)
      (simp_all add: stored_time_transforms_def p_check_transform_def check_transforms_def
        Let_def split: time_transform.splits sum.splits option.splits)
next
  case (Call_get_transform_in_time from_frame to_frame t)
  obtain r where r: "get_transform T from_frame to_frame (set_time t w) = (r, set_time t w)"
    using get_transform_world [of T from_frame to_frame "set_time t w"]
    by (cases "get_transform T from_frame to_frame (set_time t w)") simp
  with assms Call_get_transform_in_time show ?thesis
    by (cases r)
      (simp_all add: stored_time_transforms_def get_transform_in_time_def Let_def set_time_def)
qed (use assms in \<open>simp_all add: stored_time_transforms_def set_time_def transforms_world
       p_get_transform_world\<close>)

lemma after_calls_stored:
  "stored_time_transforms w \<Longrightarrow> stored_time_transforms (after_calls T cs w)"
  unfolding after_calls_def
  by (induction cs arbitrary: w) (simp_all add: after_call_stored)

subsection \<open>The example, evaluated\<close>

lemma ex_world_eq:
  "ex_world =
     \<lparr>objs = (\<lambda>a. StaticTransform [])
               (0 := ex_moving, 1 := ex_bounded,
                2 := StaticTransform [0, 0, 0], 3 := StaticTransform [1, 0, 0]),
      next_id = 4, check_calls = [],
      p_transforms = [((''world'', ''robot''), Obj 2), ((''robot'', ''sensor''), Obj 3),
                      ((''arm'', ''tool''), Obj 0)],
      p_current_time = 0, strict_check = True, check = True\<rparr>"
  by (simp add: ex_world_def ex_blank_def p_set_transform_def StaticTransform_init_def
      TemporalTransformManager_init_def TransformGraphBase_init_def)

lemma ex_world_bounded_eq:
  "ex_world_bounded =
     \<lparr>objs = (\<lambda>a. StaticTransform [])
               (0 := ex_moving, 1 := ex_bounded,
                2 := StaticTransform [0, 0, 0], 3 := StaticTransform [1, 0, 0]),
      next_id = 4, check_calls = [],
      p_transforms = [((''world'', ''robot''), Obj 2), ((''robot'', ''sensor''), Obj 3),
                      ((''arm'', ''tool''), Obj 0), ((''tool'', ''tip''), Obj 1)],
      p_current_time = 0, strict_check = True, check = True\<rparr>"
  by (simp add: ex_world_bounded_def ex_world_eq p_set_transform_def)

lemmas ex_simps = ex_world_eq ex_T_def ex_moving_def ex_bounded_def ex_check_def
  get_transform_in_time_def get_transform_def set_time_def current_time_def
  edge_transform_def p_transform_available_def p_get_transform_def transforms_def as_matrix_def
  frames_def insert_frame_def discovered_def adjacent_def

subsection \<open>The query at a given time\<close>

text \<open>
  Claim C1. \<^verbatim>\<open>get_transform_in_time(A, B, t)\<close> is to leave the ambient time as it was on
  every exit path, also when the inner \<^verbatim>\<open>get_transform\<close> raises. The method has no
  \<^verbatim>\<open>try\<close>: the statement under the comment \<^verbatim>\<open># revert internal state\<close> is skipped
  when \<^verbatim>\<open>get_transform\<close> raises. In the example, tool and world are not connected and
  the ambient time is \<open>0\<close>; the query at time \<open>90\<close> raises and leaves the ambient time
  at \<open>90\<close>.
\<close>

theorem get_transform_in_time_error_keeps_time:
  "fst (get_transform_in_time (get_transform ex_T) ''tool'' ''world'' 90 ex_world)
     = Inl NoPathError \<and>
   current_time ex_world = 0 \<and>
   current_time (snd (get_transform_in_time (get_transform ex_T) ''tool'' ''world'' 90 ex_world))
     = 90"
  by (simp add: ex_simps)

lemma get_transform_in_time_restores:
  assumes "fst (gt from_frame to_frame (set_time t w)) = Inr A2B"
  shows "current_time (snd (get_transform_in_time gt from_frame to_frame t w)) = current_time w"
  using assms
  by (cases "gt from_frame to_frame (set_time t w)")
    (simp add: get_transform_in_time_def Let_def current_time_def set_time_def)

lemma get_transform_in_time_raises:
  assumes "gt from_frame to_frame (set_time t w) = (Inl e, w')"
  shows "get_transform_in_time gt from_frame to_frame t w = (Inl e, w')"
  using assms by (simp add: get_transform_in_time_def Let_def)

subsection \<open>Delegation of the query at a given time\<close>

text \<open>
  Claim C2. What \<^verbatim>\<open>get_transform_in_time(A, B, t)\<close> returns is what
  \<^verbatim>\<open>get_transform(A, B)\<close> returns on the same state with the ambient time set to \<open>t\<close>:
  the same matrix when no error is raised (and the same error otherwise), whatever
  \<^verbatim>\<open>get_transform\<close> is.
\<close>

theorem get_transform_in_time_delegates:
  "fst (get_transform_in_time gt from_frame to_frame t w)
     = fst (gt from_frame to_frame (set_time t w))"
  by (simp add: get_transform_in_time_def Let_def split: prod.splits sum.splits)

theorem get_transform_in_time_delegates_witness:
  "fst (get_transform_in_time (get_transform ex_T) ''tool'' ''arm'' 90 ex_world)
     = Inr [- 90, 0, 0] \<and>
   fst (get_transform ex_T ''tool'' ''arm'' ex_world) = Inr [0, 0, 0]"
proof -
  have "fst (get_transform ex_T ''tool'' ''arm'' (set_time 90 ex_world)) = Inr [- 90, 0, 0]"
    by (simp add: ex_simps)
  moreover have "fst (get_transform ex_T ''tool'' ''arm'' ex_world) = Inr [0, 0, 0]"
    by (simp add: ex_simps)
  ultimately show ?thesis
    using get_transform_in_time_delegates [of "get_transform ex_T" "''tool''" "''arm''" 90 ex_world]
    by simp
qed

subsection \<open>Static transforms\<close>

text \<open>
  Claim C3. For a \<^verbatim>\<open>StaticTransform\<close> holding the matrix \<open>M\<close>, and in particular for
  one just constructed from \<open>M\<close>, \<^verbatim>\<open>as_matrix(t)\<close> returns \<open>M\<close> at every time \<open>t\<close> and
  leaves the whole state (the object, the other objects and the manager) as it was.
\<close>

theorem StaticTransform_as_matrix:
  "(objs w a = StaticTransform M \<longrightarrow> as_matrix a t w = (Inr M, w)) \<and>
   (case StaticTransform_init M w of (b, w') \<Rightarrow> as_matrix b t w' = (Inr M, w'))"
  by (simp add: as_matrix_def StaticTransform_init_def)

theorem StaticTransform_as_matrix_witness:
  "objs ex_world 3 = StaticTransform [1, 0, 0] \<and>
   as_matrix 3 42 ex_world = (Inr [1, 0, 0], ex_world) \<and>
   as_matrix 3 (- 5) ex_world = (Inr [1, 0, 0], ex_world)"
proof -
  have h: "objs ex_world 3 = StaticTransform [1, 0, 0]"
    by (simp add: ex_world_eq)
  with StaticTransform_as_matrix [of ex_world 3 "[1, 0, 0]" 42]
    StaticTransform_as_matrix [of ex_world 3 "[1, 0, 0]" "- 5"]
  show ?thesis by simp
qed

subsection \<open>Registering an edge\<close>

text \<open>
  Claim C4. \<^verbatim>\<open>_set_transform(key, value)\<close>: a value that is no \<^verbatim>\<open>TimeTransform\<close> is
  stored as a new \<^verbatim>\<open>StaticTransform\<close> of that matrix, and the objects that exist keep
  their contents; a \<^verbatim>\<open>TimeTransform\<close> is stored as it is, the very same object, and no
  object changes. In both cases the dictionary holds the (possibly wrapped) value at the
  key afterwards, and its other entries are as before.
\<close>

theorem p_set_transform_wraps:
  "map_of (p_transforms (p_set_transform k (Raw M) w)) k = Some (Obj (next_id w)) \<and>
   objs (p_set_transform k (Raw M) w) (next_id w) = StaticTransform M \<and>
   (\<forall>b. b \<noteq> next_id w \<longrightarrow> objs (p_set_transform k (Raw M) w) b = objs w b) \<and>
   map_of (p_transforms (p_set_transform k (Obj a) w)) k = Some (Obj a) \<and>
   objs (p_set_transform k (Obj a) w) = objs w \<and>
   (\<forall>k'. k' \<noteq> k \<longrightarrow>
      map_of (p_transforms (p_set_transform k A2B w)) k' = map_of (p_transforms w) k')"
  by (cases A2B) (simp_all add: p_set_transform_def StaticTransform_init_def AList.update_conv')

theorem p_set_transform_wraps_witness:
  "map_of (p_transforms (p_set_transform (''tool'', ''tip'') (Raw [0, 0, 2]) ex_world))
     (''tool'', ''tip'') = Some (Obj 4) \<and>
   objs (p_set_transform (''tool'', ''tip'') (Raw [0, 0, 2]) ex_world) 4
     = StaticTransform [0, 0, 2] \<and>
   objs (p_set_transform (''tool'', ''tip'') (Raw [0, 0, 2]) ex_world) 3 = StaticTransform [1, 0, 0] \<and>
   map_of (p_transforms (p_set_transform (''tool'', ''tip'') (Obj 1) ex_world))
     (''tool'', ''tip'') = Some (Obj 1) \<and>
   objs (p_set_transform (''tool'', ''tip'') (Obj 1) ex_world) 1 = ex_bounded \<and>
   map_of (p_transforms (p_set_transform (''tool'', ''tip'') (Obj 1) ex_world))
     (''arm'', ''tool'') = Some (Obj 0)"
proof -
  have "next_id ex_world = 4" "objs ex_world 1 = ex_bounded"
    "objs ex_world 3 = StaticTransform [1, 0, 0]"
    "map_of (p_transforms ex_world) (''arm'', ''tool'') = Some (Obj 0)"
    by (simp_all add: ex_world_eq)
  with p_set_transform_wraps
         [of "(''tool'', ''tip'')" "[0, 0, 2]" ex_world 1 "Obj 1"]
  show ?thesis by simp
qed

subsection \<open>Checking a static transform\<close>

text \<open>
  Claim C5. For a \<^verbatim>\<open>StaticTransform\<close> with the matrix \<open>M\<close>, \<^verbatim>\<open>_check_transform\<close> calls
  \<^verbatim>\<open>check_transform\<close> once, on \<open>M\<close>: the trace of calls grows by that one entry. When
  \<^verbatim>\<open>check_transform\<close> succeeds with \<open>M'\<close>, the object holds \<open>M'\<close> afterwards, nothing else
  has changed, the very same object is returned, and \<^verbatim>\<open>as_matrix\<close> returns \<open>M'\<close> at
  every time from then on. When it raises, the error is passed on and the object is as
  before.
\<close>

theorem StaticTransform_check_transforms:
  assumes "objs w a = StaticTransform M"
  shows "check_calls (snd (p_check_transform T (Obj a) w)) = check_calls w @ [M] \<and>
         (\<forall>M'. check_transform T M = Inr M' \<longrightarrow>
            p_check_transform T (Obj a) w =
              (Inr a, w\<lparr>check_calls := check_calls w @ [M],
                        objs := (objs w)(a := StaticTransform M')\<rparr>) \<and>
            (\<forall>t. as_matrix a t (snd (p_check_transform T (Obj a) w))
                   = (Inr M', snd (p_check_transform T (Obj a) w)))) \<and>
         (\<forall>e. check_transform T M = Inl e \<longrightarrow>
            p_check_transform T (Obj a) w = (Inl e, w\<lparr>check_calls := check_calls w @ [M]\<rparr>))"
proof (cases "check_transform T M")
  case (Inl e)
  with assms show ?thesis
    by (simp add: p_check_transform_def check_transforms_def)
next
  case (Inr M')
  with assms show ?thesis
    by (simp add: p_check_transform_def check_transforms_def as_matrix_def)
qed

theorem StaticTransform_check_transforms_witness:
  "(case StaticTransform_init [1, 0, 0, 1] ex_world of
      (a, w) \<Rightarrow>
        objs w a = StaticTransform [1, 0, 0, 1] \<and>
        check_transform ex_T [1, 0, 0, 1] = Inr [1, 0, 0] \<and>
        fst (p_check_transform ex_T (Obj a) w) = Inr a \<and>
        check_calls (snd (p_check_transform ex_T (Obj a) w)) = [1, 0, 0, 1] # [] \<and>
        as_matrix a 3 (snd (p_check_transform ex_T (Obj a) w))
          = (Inr [1, 0, 0], snd (p_check_transform ex_T (Obj a) w)))"
proof -
  define w where "w = snd (StaticTransform_init [1, 0, 0, 1] ex_world)"
  have init: "StaticTransform_init [1, 0, 0, 1] ex_world = (4, w)"
    by (simp add: w_def StaticTransform_init_def ex_world_eq)
  have h1: "objs w 4 = StaticTransform [1, 0, 0, 1]"
    by (simp add: w_def StaticTransform_init_def ex_world_eq)
  have h2: "check_transform ex_T [1, 0, 0, 1] = Inr [1, 0, 0]"
    by (simp add: ex_T_def ex_check_def)
  have h3: "check_calls w = []"
    by (simp add: w_def StaticTransform_init_def ex_world_eq)
  from StaticTransform_check_transforms [OF h1, of ex_T] h2
  have c: "check_calls (snd (p_check_transform ex_T (Obj 4) w))
             = check_calls w @ ([1, 0, 0, 1] # [])"
    and r: "p_check_transform ex_T (Obj 4) w =
             (Inr 4, w\<lparr>check_calls := check_calls w @ ([1, 0, 0, 1] # []),
                       objs := (objs w)(4 := StaticTransform [1, 0, 0])\<rparr>)"
    and m: "as_matrix 4 3 (snd (p_check_transform ex_T (Obj 4) w))
              = (Inr [1, 0, 0], snd (p_check_transform ex_T (Obj 4) w))"
    by blast+
  from r have "fst (p_check_transform ex_T (Obj 4) w) = Inr 4"
    by simp
  with c h3 m h1 h2 init show ?thesis by simp
qed

text \<open>The static edge robot--sensor of the example passes the check unchanged.\<close>

lemma ex_check_transform:
  "p_check_transform ex_T (Obj 3) ex_world
     = (Inr 3, ex_world\<lparr>check_calls := [1, 0, 0] # []\<rparr>)"
  by (simp add: p_check_transform_def check_transforms_def ex_world_eq ex_T_def ex_check_def)

subsection \<open>Registered edges\<close>

text \<open>
  Claim C6. \<^verbatim>\<open>_transform_available((A, B))\<close> is true if and only if the key \<open>(A, B)\<close>
  itself is in the dictionary of registered edges: no key is available in a manager just
  constructed; registering \<open>(A, B)\<close> makes \<open>(A, B)\<close> available and leaves the answer for
  every other key as it was, in particular for the reverse key \<open>(B, A)\<close> when \<open>A \<noteq> B\<close>;
  deleting \<open>(A, B)\<close> makes it unavailable and leaves every other key as it was.
\<close>

theorem p_transform_available_iff:
  "(p_transform_available (A, B) w \<longleftrightarrow> (A, B) \<in> fst ` set (p_transforms w)) \<and>
   (p_transform_available (A, B) w \<longleftrightarrow> map_of (p_transforms w) (A, B) \<noteq> None) \<and>
   \<not> p_transform_available (A, B) (TemporalTransformManager_init sc c w0) \<and>
   p_transform_available (A, B) (p_set_transform (A, B) v w) \<and>
   (k \<noteq> (A, B) \<longrightarrow>
      p_transform_available k (p_set_transform (A, B) v w) = p_transform_available k w) \<and>
   (A \<noteq> B \<longrightarrow>
      p_transform_available (B, A) (p_set_transform (A, B) v w)
        = p_transform_available (B, A) w) \<and>
   \<not> p_transform_available (A, B) (snd (p_del_transform (A, B) w)) \<and>
   (k \<noteq> (A, B) \<longrightarrow>
      p_transform_available k (snd (p_del_transform (A, B) w)) = p_transform_available k w)"
proof -
  have set_keys: "set (map fst (p_transforms (p_set_transform (A, B) v w)))
      = insert (A, B) (set (map fst (p_transforms w)))"
    by (cases v)
      (simp_all add: p_set_transform_def StaticTransform_init_def AList.update_keys
        insert_absorb)
  have del_keys: "set (map fst (p_transforms (snd (p_del_transform (A, B) w))))
      = set (map fst (p_transforms w)) - {(A, B)}"
    by (simp add: p_del_transform_def AList.delete_keys del: set_map)
  have "p_transform_available (A, B) w \<longleftrightarrow> map_of (p_transforms w) (A, B) \<noteq> None"
    by (simp add: p_transform_available_def map_of_eq_None_iff)
  moreover have "\<not> p_transform_available (A, B) (TemporalTransformManager_init sc c w0)"
    by (simp add: p_transform_available_def TemporalTransformManager_init_def TransformGraphBase_init_def)
  ultimately show ?thesis
    unfolding p_transform_available_def set_keys del_keys by auto
qed

theorem p_transform_available_iff_witness:
  "''tool'' \<noteq> ''tip'' \<and>
   \<not> p_transform_available (''tool'', ''tip'') ex_world \<and>
   p_transform_available (''tool'', ''tip'')
     (p_set_transform (''tool'', ''tip'') (Obj 1) ex_world) \<and>
   \<not> p_transform_available (''tip'', ''tool'')
     (p_set_transform (''tool'', ''tip'') (Obj 1) ex_world) \<and>
   p_transform_available (''arm'', ''tool'')
     (snd (p_del_transform (''tool'', ''tip'') ex_world_bounded))"
proof -
  have "\<not> p_transform_available (''tool'', ''tip'') ex_world"
    and "\<not> p_transform_available (''tip'', ''tool'') ex_world"
    and "p_transform_available (''arm'', ''tool'') ex_world_bounded"
    by (simp_all add: p_transform_available_def ex_world_eq ex_world_bounded_eq)
  with p_transform_available_iff
         [where A = "''tool''" and B = "''tip''" and w = ex_world and v = "Obj 1"
            and k = "(''arm'', ''tool'')" and sc = True and c = True and ?w0.0 = ex_blank]
       p_transform_available_iff
         [where A = "''tool''" and B = "''tip''" and w = ex_world_bounded and v = "Obj 1"
            and k = "(''arm'', ''tool'')" and sc = True and c = True and ?w0.0 = ex_blank]
  show ?thesis by simp
qed

subsection \<open>The ambient time\<close>

text \<open>
  Claim C7. A manager just constructed has the current time \<open>0\<close>. After \<^verbatim>\<open>set_time(t)\<close>
  the property \<^verbatim>\<open>current_time\<close> is \<open>t\<close>, and stays \<open>t\<close> through every sequence of calls
  of the other methods that do not run \<^verbatim>\<open>set_time\<close>. \<^verbatim>\<open>set_time\<close> changes nothing
  else: the registered edges, the objects and the flags are as before.
\<close>

theorem set_time_current_time:
  "current_time (TemporalTransformManager_init sc c w0) = 0 \<and>
   current_time (set_time t w) = t \<and>
   (list_all (\<lambda>c. \<not> sets_time c) cs \<longrightarrow> current_time (after_calls T cs (set_time t w)) = t) \<and>
   p_transforms (set_time t w) = p_transforms w \<and>
   objs (set_time t w) = objs w \<and> next_id (set_time t w) = next_id w \<and>
   check_calls (set_time t w) = check_calls w \<and>
   strict_check (set_time t w) = strict_check w \<and> check (set_time t w) = check w"
  by (simp add: current_time_def after_calls_time TemporalTransformManager_init_def TransformGraphBase_init_def set_time_def)

theorem set_time_current_time_witness:
  "current_time (TemporalTransformManager_init True True ex_blank) = 0 \<and>
   current_time ex_blank = 7 \<and>
   list_all (\<lambda>c. \<not> sets_time c)
     [Call_set_transform (''tool'', ''tip'') (Raw [0, 0, 2]), Call_transforms,
      Call_get_transform (''nowhere'', ''tip''), Call_del_transform (''world'', ''robot''),
      Call_check_transform (Obj 3)] \<and>
   current_time
     (after_calls ex_T
        [Call_set_transform (''tool'', ''tip'') (Raw [0, 0, 2]), Call_transforms,
         Call_get_transform (''nowhere'', ''tip''), Call_del_transform (''world'', ''robot''),
         Call_check_transform (Obj 3)]
        (set_time 5 ex_world)) = 5 \<and>
   p_transforms (set_time 5 ex_world) = p_transforms ex_world"
  using set_time_current_time
    [of True True ex_blank 5 ex_world
      "[Call_set_transform (''tool'', ''tip'') (Raw [0, 0, 2]), Call_transforms,
        Call_get_transform (''nowhere'', ''tip''), Call_del_transform (''world'', ''robot''),
        Call_check_transform (Obj 3)]" ex_T]
  by (simp add: current_time_def ex_blank_def)

subsection \<open>The property transforms\<close>

text \<open>
  Claim C8, as amended. Reading the property \<^verbatim>\<open>transforms\<close> never changes the state.
  In every state in which each stored transform's \<^verbatim>\<open>as_matrix\<close> returns a matrix at the
  current time, and in no other, the property returns a dictionary; it has exactly the
  registered keys (in the same order) and its value at each key \<open>k\<close> is
  \<^verbatim>\<open>_transforms[k].as_matrix(current_time)\<close>.
\<close>

theorem transforms_evaluates_all:
  "snd (transforms w) = w \<and>
   ((\<exists>d. fst (transforms w) = Inr d) \<longleftrightarrow> as_matrix_returns w) \<and>
   (as_matrix_returns w \<longrightarrow>
      (\<exists>d. transforms w = (Inr d, w) \<and>
           map fst d = map fst (p_transforms w) \<and>
           (\<forall>k M. map_of d k = Some M \<longleftrightarrow>
              (\<exists>a. map_of (p_transforms w) k = Some (Obj a) \<and>
                   as_matrix a (current_time w) w = (Inr M, w)))))"
proof (intro conjI impI)
  show "snd (transforms w) = w"
    by (rule transforms_world)
  show "\<exists>d. transforms w = (Inr d, w) \<and>
           map fst d = map fst (p_transforms w) \<and>
           (\<forall>k M. map_of d k = Some M \<longleftrightarrow>
              (\<exists>a. map_of (p_transforms w) k = Some (Obj a) \<and>
                   as_matrix a (current_time w) w = (Inr M, w)))"
    if "as_matrix_returns w"
    using that by (intro transforms_returns as_matrix_returnsD)
  show "(\<exists>d. fst (transforms w) = Inr d) \<longleftrightarrow> as_matrix_returns w"
  proof
    assume "\<exists>d. fst (transforms w) = Inr d"
    then obtain d where "transforms_items (p_transforms w) w = (Inr d, snd (transforms w))"
      by (auto simp: transforms_def prod_eq_iff)
    then show "as_matrix_returns w"
      unfolding as_matrix_returns_def by (rule transforms_items_Inr)
  next
    assume "as_matrix_returns w"
    then have "\<exists>d. transforms w = (Inr d, w)"
      using transforms_returns [OF as_matrix_returnsD, of w] by blast
    then show "\<exists>d. fst (transforms w) = Inr d"
      by auto
  qed
qed

theorem transforms_evaluates_all_witness:
  "as_matrix_returns (set_time 4 ex_world) \<and>
   snd (transforms (set_time 4 ex_world)) = set_time 4 ex_world \<and>
   (\<exists>d. fst (transforms (set_time 4 ex_world)) = Inr d \<and>
        map fst d = [(''world'', ''robot''), (''robot'', ''sensor''), (''arm'', ''tool'')] \<and>
        map_of d (''robot'', ''sensor'') = Some [1, 0, 0] \<and>
        map_of d (''arm'', ''tool'') = Some [4, 0, 0])"
proof -
  let ?w = "set_time 4 ex_world"
  have returns: "as_matrix_returns ?w"
    by (simp add: as_matrix_returns_def ex_simps)
  from transforms_evaluates_all [of ?w] returns obtain d
    where d: "transforms ?w = (Inr d, ?w)" "map fst d = map fst (p_transforms ?w)"
      and look: "\<And>k M. map_of d k = Some M \<longleftrightarrow>
              (\<exists>a. map_of (p_transforms ?w) k = Some (Obj a) \<and>
                   as_matrix a (current_time ?w) ?w = (Inr M, ?w))"
    by blast
  have "map_of (p_transforms ?w) (''robot'', ''sensor'') = Some (Obj 3)"
    and "as_matrix 3 (current_time ?w) ?w = (Inr [1, 0, 0], ?w)"
    and "map_of (p_transforms ?w) (''arm'', ''tool'') = Some (Obj 0)"
    and "as_matrix 0 (current_time ?w) ?w = (Inr [4, 0, 0], ?w)"
    by (simp_all add: ex_world_eq set_time_def as_matrix_def current_time_def ex_moving_def)
  with look have "map_of d (''robot'', ''sensor'') = Some [1, 0, 0]"
    and "map_of d (''arm'', ''tool'') = Some [4, 0, 0]"
    by blast+
  moreover have "map fst (p_transforms ?w)
      = [(''world'', ''robot''), (''robot'', ''sensor''), (''arm'', ''tool'')]"
    by (simp add: ex_world_eq set_time_def)
  ultimately show ?thesis
    using returns d by simp
qed

text \<open>
  The claim as it is written, that the property returns such a dictionary in every
  state, fails where the \<^verbatim>\<open>as_matrix\<close> of a stored transform raises. In the example all
  stored values are \<^verbatim>\<open>TimeTransform\<close>s and the edge tool--tip raises before time \<open>0\<close>: at
  time \<open>-1\<close> the property raises that exception and returns no dictionary.
\<close>

theorem transforms_raises_counterexample:
  "stored_time_transforms (set_time (- 1) ex_world_bounded) \<and>
   transforms (set_time (- 1) ex_world_bounded)
     = (Inl InvalidTransformError, set_time (- 1) ex_world_bounded)"
  by (simp add: stored_time_transforms_def ex_simps ex_world_bounded_eq)

subsection \<open>One edge of the property transforms\<close>

text \<open>
  Claim C9, as amended. In every state in which each stored transform's \<^verbatim>\<open>as_matrix\<close>
  returns a matrix at the current time, \<^verbatim>\<open>_get_transform(k)\<close> at a registered key \<open>k\<close>,
  which builds the whole dictionary \<^verbatim>\<open>transforms\<close> and indexes it, returns the same
  matrix and leaves the same state as the evaluation of that one edge,
  \<^verbatim>\<open>_transforms[k].as_matrix(current_time)\<close>.
\<close>

theorem p_get_transform_direct:
  assumes "as_matrix_returns w" and "p_transform_available k w"
  shows "\<exists>a. map_of (p_transforms w) k = Some (Obj a) \<and>
           p_get_transform k w = as_matrix a (current_time w) w \<and>
           (\<exists>M. as_matrix a (current_time w) w = (Inr M, w))"
proof -
  from transforms_returns [OF as_matrix_returnsD [OF assms(1)]] obtain d
    where d: "transforms w = (Inr d, w)"
      and look: "\<And>k M. map_of d k = Some M \<longleftrightarrow>
              (\<exists>a. map_of (p_transforms w) k = Some (Obj a) \<and>
                   as_matrix a (current_time w) w = (Inr M, w))"
    by blast
  from assms(2) have "map_of (p_transforms w) k \<noteq> None"
    by (simp add: p_transform_available_def map_of_eq_None_iff)
  then obtain v where v: "map_of (p_transforms w) k = Some v"
    by blast
  then have "(k, v) \<in> set (p_transforms w)"
    by (rule map_of_SomeD)
  with as_matrix_returnsD [OF assms(1)] obtain a M
    where a: "v = Obj a" and M: "as_matrix a (current_time w) w = (Inr M, w)"
    by fastforce
  with look [of k M] v have "map_of d k = Some M" by blast
  with d M have "p_get_transform k w = as_matrix a (current_time w) w"
    by (simp add: p_get_transform_def)
  with v a M show ?thesis by blast
qed

theorem p_get_transform_direct_witness:
  "as_matrix_returns (set_time 4 ex_world) \<and>
   p_transform_available (''arm'', ''tool'') (set_time 4 ex_world) \<and>
   p_get_transform (''arm'', ''tool'') (set_time 4 ex_world)
     = (Inr [4, 0, 0], set_time 4 ex_world)"
proof -
  let ?w = "set_time 4 ex_world"
  have returns: "as_matrix_returns ?w"
    by (simp add: as_matrix_returns_def ex_simps)
  have avail: "p_transform_available (''arm'', ''tool'') ?w"
    by (simp add: p_transform_available_def ex_world_eq set_time_def)
  from p_get_transform_direct [OF returns avail] obtain a
    where "map_of (p_transforms ?w) (''arm'', ''tool'') = Some (Obj a)"
      and eq: "p_get_transform (''arm'', ''tool'') ?w = as_matrix a (current_time ?w) ?w"
    by blast
  moreover have "map_of (p_transforms ?w) (''arm'', ''tool'') = Some (Obj 0)"
    by (simp add: ex_world_eq set_time_def)
  ultimately have "a = 0" by simp
  moreover have "as_matrix 0 (current_time ?w) ?w = (Inr [4, 0, 0], ?w)"
    by (simp add: ex_world_eq set_time_def as_matrix_def current_time_def ex_moving_def)
  ultimately show ?thesis
    using returns avail eq by simp
qed

text \<open>
  The claim as it is written asks only that every \<^verbatim>\<open>as_matrix\<close> be pure, which it is in
  every state here: no call of \<^verbatim>\<open>as_matrix\<close> changes the state. That is not enough. In
  the example at time \<open>-1\<close> the edge world--robot is registered and static, and its own
  evaluation returns its matrix; \<^verbatim>\<open>_get_transform\<close> at that key evaluates the edge
  tool--tip as well, which raises.
\<close>

theorem p_get_transform_counterexample:
  "p_transform_available (''world'', ''robot'') (set_time (- 1) ex_world_bounded) \<and>
   map_of (p_transforms (set_time (- 1) ex_world_bounded)) (''world'', ''robot'')
     = Some (Obj 2) \<and>
   as_matrix 2 (current_time (set_time (- 1) ex_world_bounded))
       (set_time (- 1) ex_world_bounded)
     = (Inr [0, 0, 0], set_time (- 1) ex_world_bounded) \<and>
   p_get_transform (''world'', ''robot'') (set_time (- 1) ex_world_bounded)
     = (Inl InvalidTransformError, set_time (- 1) ex_world_bounded)"
  by (simp add: ex_simps ex_world_bounded_eq)

subsection \<open>The stored values\<close>

text \<open>
  Claim C10. Every value stored in the dictionary of edges is a \<^verbatim>\<open>TimeTransform\<close>: this
  holds of a manager just constructed, is kept by \<^verbatim>\<open>_set_transform\<close> and
  \<^verbatim>\<open>_del_transform\<close>, and so holds after every sequence of calls of the methods. Hence
  \<^verbatim>\<open>transforms\<close> and \<^verbatim>\<open>_get_transform\<close> (at a registered key) find the method
  \<^verbatim>\<open>as_matrix\<close> on every stored value: an error they raise is one raised by the
  \<^verbatim>\<open>as_matrix\<close> of a stored transform.
\<close>

theorem stored_values_are_time_transforms:
  fixes w w0 :: "('f, 'm) world" and T :: "'m transformations"
  shows
  "stored_time_transforms (TemporalTransformManager_init sc c w0) \<and>
   (stored_time_transforms w \<longrightarrow>
      stored_time_transforms (p_set_transform k A2B w) \<and>
      stored_time_transforms (snd (p_del_transform k w))) \<and>
   stored_time_transforms (after_calls T cs (TemporalTransformManager_init sc c w0)) \<and>
   (stored_time_transforms w \<longrightarrow>
      (\<forall>k v. (k, v) \<in> set (p_transforms w) \<longrightarrow> (\<exists>a. v = Obj a)) \<and>
      (\<forall>e. fst (transforms w) = Inl e \<longrightarrow>
         (\<exists>k a. (k, Obj a) \<in> set (p_transforms w) \<and>
                fst (as_matrix a (current_time w) w) = Inl e)) \<and>
      (\<forall>k e. p_transform_available k w \<longrightarrow> fst (p_get_transform k w) = Inl e \<longrightarrow>
         (\<exists>k' a. (k', Obj a) \<in> set (p_transforms w) \<and>
                 fst (as_matrix a (current_time w) w) = Inl e)))"
proof (intro conjI impI allI)
  show init: "stored_time_transforms (TemporalTransformManager_init sc c w0)"
    by (simp add: stored_time_transforms_def TemporalTransformManager_init_def TransformGraphBase_init_def)
  show "stored_time_transforms (after_calls T cs (TemporalTransformManager_init sc c w0))"
    using init by (rule after_calls_stored)
next
  assume "stored_time_transforms w"
  then show "stored_time_transforms (p_set_transform k A2B w)"
    using after_call_stored [of w T "Call_set_transform k A2B"] by simp
next
  assume "stored_time_transforms w"
  then show "stored_time_transforms (snd (p_del_transform k w))"
    using after_call_stored [of w T "Call_del_transform k"] by simp
next
  fix k v
  assume "stored_time_transforms w" and "(k, v) \<in> set (p_transforms w)"
  then show "\<exists>a. v = Obj a"
    unfolding stored_time_transforms_def list_all_iff by (cases v) auto
next
  fix e
  assume "stored_time_transforms w" and "fst (transforms w) = Inl e"
  then show "\<exists>k a. (k, Obj a) \<in> set (p_transforms w) \<and>
                fst (as_matrix a (current_time w) w) = Inl e"
    unfolding stored_time_transforms_def transforms_def by (rule transforms_items_error)
next
  fix k e
  assume inv: "stored_time_transforms w" and avail: "p_transform_available k w"
    and err: "fst (p_get_transform k w) = Inl e"
  obtain r where r: "transforms w = (r, w)"
    using transforms_world [of w] by (cases "transforms w") simp
  show "\<exists>k' a. (k', Obj a) \<in> set (p_transforms w) \<and>
                 fst (as_matrix a (current_time w) w) = Inl e"
  proof (cases r)
    case (Inl e')
    with r err have "fst (transforms w) = Inl e"
      by (simp add: p_get_transform_def)
    with inv show ?thesis
      unfolding stored_time_transforms_def transforms_def by (rule transforms_items_error)
  next
    case (Inr d)
    with r have "map fst d = map fst (p_transforms w)"
      by (simp add: transforms_def transforms_items_keys)
    with avail have "k \<in> set (map fst d)"
      by (simp only: p_transform_available_def)
    then have "map_of d k \<noteq> None"
      by (simp add: map_of_eq_None_iff)
    with r Inr err show ?thesis
      by (auto simp: p_get_transform_def)
  qed
qed

theorem stored_values_are_time_transforms_witness:
  "stored_time_transforms (set_time (- 1) ex_world_bounded) \<and>
   stored_time_transforms
     (p_set_transform (''tip'', ''cam'') (Raw [0, 0, 2]) (set_time (- 1) ex_world_bounded)) \<and>
   stored_time_transforms
     (after_calls ex_T
        [Call_set_transform (''world'', ''robot'') (Raw [0, 0, 0]),
         Call_set_transform (''arm'', ''tool'') (Obj 0), Call_set_time 3,
         Call_del_transform (''world'', ''robot''),
         Call_get_transform_in_time ''tool'' ''world'' 9]
        (TemporalTransformManager_init True True ex_blank)) \<and>
   fst (transforms (set_time (- 1) ex_world_bounded)) = Inl InvalidTransformError \<and>
   (\<exists>k a. (k, Obj a) \<in> set (p_transforms (set_time (- 1) ex_world_bounded)) \<and>
      fst (as_matrix a (current_time (set_time (- 1) ex_world_bounded))
             (set_time (- 1) ex_world_bounded)) = Inl InvalidTransformError)"
proof -
  let ?w = "set_time (- 1) ex_world_bounded"
  have inv: "stored_time_transforms ?w"
    by (simp add: stored_time_transforms_def ex_world_bounded_eq set_time_def)
  have err: "fst (transforms ?w) = Inl InvalidTransformError"
    by (simp add: ex_simps ex_world_bounded_eq)
  from inv err stored_values_are_time_transforms
    [where w = ?w and k = "(''tip'', ''cam'')" and ?A2B = "Raw [0, 0, 2]" and T = ex_T
       and sc = True and c = True and ?w0.0 = ex_blank
       and cs = "[Call_set_transform (''world'', ''robot'') (Raw [0, 0, 0]),
         Call_set_transform (''arm'', ''tool'') (Obj 0), Call_set_time 3,
         Call_del_transform (''world'', ''robot''),
         Call_get_transform_in_time ''tool'' ''world'' 9]"]
  show ?thesis by blast
qed

end
